theory Spec2Isabelle
  imports Complex_Main "HOL-Library.Signed_Division"
begin

section \<open>The snake game of \<^verbatim>\<open>src/main.ts\<close>\<close>

text \<open>
  The development embeds the game rules of class \<^verbatim>\<open>SnakeGameModal\<close>: the key handler
  with its input queue, \<^verbatim>\<open>initializeGame\<close>, \<^verbatim>\<open>updateGameState\<close> (one tick) and
  \<^verbatim>\<open>generateFood\<close>. Canvas drawing, DOM menus and the timer fields
  (\<^verbatim>\<open>lastMoveTime\<close>, \<^verbatim>\<open>lastFrameTime\<close>, \<^verbatim>\<open>animationFrame\<close>) carry no game rule and are left out.
  The repository also holds an earlier version of the modal, whose tick stops at the walls
  of the canvas; its \<^verbatim>\<open>updateGameState\<close> and \<^verbatim>\<open>generateFood\<close> are embedded next to the
  current ones.

  Numbers are the integers the settings sliders deliver. The model covers configurations
  with an integral \<^verbatim>\<open>gridSize\<close> other than 0 (the slider offers 10 to 40): with 0 the
  JavaScript remainder is \<^verbatim>\<open>NaN\<close>, which the integers do not have.
\<close>

subsection \<open>Data\<close>

text \<open>The part of \<^verbatim>\<open>SnakePluginSettings\<close> that the rules read and never write.\<close>

record settings =
  gameSpeed :: int
  gridSize :: int
  speedIncrease :: int

text \<open>
  A snake segment \<^verbatim>\<open>{ x, y, actualX?, actualY? }\<close>; the optional fields are pixel
  anchors for the renderer. The food is a plain coordinate pair \<^verbatim>\<open>{ x, y }\<close>.
\<close>

record segment =
  seg_x :: int
  seg_y :: int
  actualX :: "int option"
  actualY :: "int option"

type_synonym cell = "int \<times> int"

datatype direction = Up | Down | Left | Right

datatype error = TypeError

text \<open>
  The fields of the modal that the rules touch. \<open>pixelSize\<close> is the modal's own
  \<^verbatim>\<open>this.gridSize\<close> (pixels per cell, set by \<^verbatim>\<open>adjustCanvasSize\<close>), renamed to keep it apart
  from \<^verbatim>\<open>settings.gridSize\<close> (cells per side). \<open>highScore\<close> is
  \<^verbatim>\<open>plugin.settings.highScore\<close>, the one setting the game writes.
\<close>

record game =
  snake :: "segment list"
  food :: cell
  direction :: direction
  nextDirection :: direction
  score :: int
  pixelSize :: int
  gameOver :: bool
  gameStarted :: bool
  moveInterval :: int
  isPaused :: bool
  inputQueue :: "direction list"
  highScore :: int

definition MAX_QUEUED_INPUTS :: nat where
  "MAX_QUEUED_INPUTS = 2"

definition coords :: "segment \<Rightarrow> cell" where
  "coords seg = (seg_x seg, seg_y seg)"

text \<open>The test \<^verbatim>\<open>this.snake.some(segment => segment.x === x && segment.y === y)\<close>.\<close>

definition occupied :: "segment list \<Rightarrow> cell \<Rightarrow> bool" where
  "occupied snk c = list_ex (\<lambda>seg. seg_x seg = fst c \<and> seg_y seg = snd c) snk"

subsection \<open>The key handler and the input queue\<close>

definition isValidDirection :: "direction \<Rightarrow> game \<Rightarrow> bool" where
  "isValidDirection newDir s =
     (let lastDir = (if length (inputQueue s) > 0 then last (inputQueue s) else direction s)
      in \<not> ((lastDir = Up \<and> newDir = Down) \<or>
             (lastDir = Down \<and> newDir = Up) \<or>
             (lastDir = Left \<and> newDir = Right) \<or>
             (lastDir = Right \<and> newDir = Left)))"

text \<open>Lines 233 to 236 of the handler, for a key that names a direction.\<close>

definition offer :: "direction \<Rightarrow> game \<Rightarrow> game" where
  "offer newDirection s =
     (if isValidDirection newDirection s \<and> length (inputQueue s) < MAX_QUEUED_INPUTS
      then s\<lparr>inputQueue := inputQueue s @ [newDirection]\<rparr>
      else s)"

definition keyDirection :: "string \<Rightarrow> direction option" where
  "keyDirection key =
     (if key = ''ArrowUp'' \<or> key = ''w'' \<or> key = ''k'' then Some Up
      else if key = ''ArrowDown'' \<or> key = ''s'' \<or> key = ''j'' then Some Down
      else if key = ''ArrowLeft'' \<or> key = ''a'' \<or> key = ''h'' then Some Left
      else if key = ''ArrowRight'' \<or> key = ''d'' \<or> key = ''l'' then Some Right
      else None)"

definition startGame :: "game \<Rightarrow> game" where
  "startGame s = s\<lparr>gameStarted := True\<rparr>"

definition togglePause :: "game \<Rightarrow> game" where
  "togglePause s = s\<lparr>isPaused := \<not> isPaused s\<rparr>"

definition keyDownHandler :: "string \<Rightarrow> game \<Rightarrow> game" where
  "keyDownHandler key s =
     (if \<not> gameStarted s then
        (if key = ''Enter'' \<or> key = '' '' then startGame s else s)
      else if key = ''Escape'' then togglePause s
      else if isPaused s then s
      else (case keyDirection key of None \<Rightarrow> s | Some newDirection \<Rightarrow> offer newDirection s))"

subsection \<open>Starting and restarting\<close>

text \<open>
  \<^verbatim>\<open>Math.floor(gridSize / 2)\<close> is \<open>div\<close> on integers. \<^verbatim>\<open>initializeGame\<close> leaves the food,
  the input queue, the pause flag and the high score as they are.
\<close>

definition initializeGame :: "settings \<Rightarrow> game \<Rightarrow> game" where
  "initializeGame cfg s =
     (let centerX = gridSize cfg div 2;
          centerY = gridSize cfg div 2
      in s\<lparr>snake := [\<lparr>seg_x = centerX, seg_y = centerY, actualX = None, actualY = None\<rparr>],
           direction := Right,
           nextDirection := Right,
           score := 0,
           gameOver := False,
           gameStarted := False,
           moveInterval := gameSpeed cfg\<rparr>)"

subsection \<open>Food placement\<close>

text \<open>
  \<^verbatim>\<open>Math.random()\<close> is an input of the model: \<open>rnd i\<close> is the value of the \<open>i\<close>-th call,
  a real number that the language promises to lie in \<open>[0, 1)\<close>, and every function that
  draws returns the index of the next unused call. The product and its floor are taken
  in the reals, so a draw within one rounding step of a cell border may name the
  neighbouring cell of the one the floating-point product names.

  The \<^verbatim>\<open>do ... while\<close> loop has no bound on its retries: \<open>None\<close> is the loop that never
  returns.
\<close>

definition draw :: "int \<Rightarrow> (nat \<Rightarrow> real) \<Rightarrow> nat \<Rightarrow> cell" where
  "draw g rnd n = (\<lfloor>rnd n * of_int g\<rfloor>, \<lfloor>rnd (n + 1) * of_int g\<rfloor>)"

partial_function (option) generateFood ::
  "int \<Rightarrow> segment list \<Rightarrow> (nat \<Rightarrow> real) \<Rightarrow> nat \<Rightarrow> (cell \<times> nat) option" where
  "generateFood g snk rnd n =
     (if occupied snk (draw g rnd n) then generateFood g snk rnd (n + 2)
      else Some (draw g rnd n, n + 2))"

text \<open>
  A new modal: the field initialisers and the constructor, then \<^verbatim>\<open>onOpen\<close>, which draws
  the first food and sets the pixel size. The stored high score \<open>hs\<close> and the pixel size
  \<open>px\<close> come from the host.
\<close>

definition openGame :: "settings \<Rightarrow> int \<Rightarrow> int \<Rightarrow> (nat \<Rightarrow> real) \<Rightarrow> nat \<Rightarrow> (game \<times> nat) option" where
  "openGame cfg hs px rnd n =
     (let s = initializeGame cfg
                \<lparr>snake = [], food = (0, 0), direction = Right, nextDirection = Right,
                 score = 0, pixelSize = px, gameOver = False, gameStarted = False,
                 moveInterval = gameSpeed cfg, isPaused = False, inputQueue = [],
                 highScore = hs\<rparr>
      in case generateFood (gridSize cfg) (snake s) rnd n of
           None \<Rightarrow> None
         | Some (f, n') \<Rightarrow> Some (s\<lparr>food := f\<rparr>, n'))"

text \<open>The restart buttons of the pause menu and of the game-over menu.\<close>

definition restartFromPause :: "settings \<Rightarrow> game \<Rightarrow> game" where
  "restartFromPause cfg s = initializeGame cfg (s\<lparr>isPaused := False\<rparr>)"

definition playAgain :: "settings \<Rightarrow> game \<Rightarrow> game" where
  "playAgain cfg s = initializeGame cfg s"

subsection \<open>One tick\<close>

text \<open>The \<^verbatim>\<open>switch\<close> that moves the copied head; \<^verbatim>\<open>%\<close> is the truncating remainder.\<close>

definition moveHead :: "int \<Rightarrow> direction \<Rightarrow> cell \<Rightarrow> cell" where
  "moveHead g d h =
     (case d of
        Up \<Rightarrow> (fst h, (snd h - 1 + g) smod g)
      | Down \<Rightarrow> (fst h, (snd h + 1) smod g)
      | Left \<Rightarrow> ((fst h - 1 + g) smod g, snd h)
      | Right \<Rightarrow> ((fst h + 1) smod g, snd h))"

text \<open>The part of \<^verbatim>\<open>showGameOverMenu\<close> that writes state: the high score.\<close>

definition showGameOverMenu :: "game \<Rightarrow> game" where
  "showGameOverMenu s = (if score s > highScore s then s\<lparr>highScore := score s\<rparr> else s)"

text \<open>Taking the oldest queued direction, the first statement of a running tick.\<close>

definition processQueue :: "game \<Rightarrow> game" where
  "processQueue s =
     (case inputQueue s of
        [] \<Rightarrow> s
      | d # q \<Rightarrow> s\<lparr>direction := d, inputQueue := q\<rparr>)"

text \<open>
  \<^verbatim>\<open>updateGameState\<close>. With an empty snake \<^verbatim>\<open>this.snake[0]\<close> is undefined and building the
  new head raises a \<^verbatim>\<open>TypeError\<close>. The result is \<open>None\<close> when the food loop never returns.
\<close>

definition updateGameState ::
  "settings \<Rightarrow> (nat \<Rightarrow> real) \<Rightarrow> nat \<Rightarrow> game \<Rightarrow> (error + game \<times> nat) option" where
  "updateGameState cfg rnd n s =
     (if gameOver s \<or> isPaused s then Some (Inr (s, n))
      else
        let s1 = processQueue s in
        case snake s1 of
          [] \<Rightarrow> Some (Inl TypeError)
        | h # _ \<Rightarrow>
            let head = moveHead (gridSize cfg) (direction s1) (coords h) in
            if occupied (snake s1) head
            then Some (Inr (showGameOverMenu (s1\<lparr>gameOver := True\<rparr>), n))
            else
              let newHead = \<lparr>seg_x = fst head, seg_y = snd head,
                             actualX = Some (seg_x h * pixelSize s1),
                             actualY = Some (seg_y h * pixelSize s1)\<rparr>;
                  s2 = s1\<lparr>snake := newHead # snake s1\<rparr>
              in if head = food s2 then
                   (case generateFood (gridSize cfg) (snake s2) rnd n of
                      None \<Rightarrow> None
                    | Some (f, n') \<Rightarrow>
                        let s3 = s2\<lparr>score := score s2 + 10, food := f\<rparr>
                        in Some (Inr
                             (if speedIncrease cfg > 0 \<and> moveInterval s3 > 50
                              then s3\<lparr>moveInterval := moveInterval s3 - speedIncrease cfg\<rparr>
                              else s3, n')))
                 else Some (Inr (s2\<lparr>snake := butlast (snake s2)\<rparr>, n)))"

subsection \<open>The earlier tick, with walls\<close>

text \<open>
  The earlier \<^verbatim>\<open>SnakeGameModal\<close> (\<^verbatim>\<open>src/unnamed/part_000\<close>, lines 382 to 763). Its modal has
  the fields of the current one except the input queue, which is carried along here and
  never read, and its grid is the canvas divided by the pixel size of a cell:
  \<^verbatim>\<open>canvas.width / this.gridSize\<close>, a quotient of numbers that need not be whole. A tick
  takes \<^verbatim>\<open>nextDirection\<close>, moves the head without any remainder, and tests the walls before
  the snake. The speed step is the constant 2. The model covers a pixel size other than 0.
\<close>

record boundedGame = game +
  canvasWidth :: int
  canvasHeight :: int

text \<open>The \<^verbatim>\<open>switch\<close> of lines 624 to 629.\<close>

definition moveHead_walls :: "direction \<Rightarrow> cell \<Rightarrow> cell" where
  "moveHead_walls d h =
     (case d of
        Up \<Rightarrow> (fst h, snd h - 1)
      | Down \<Rightarrow> (fst h, snd h + 1)
      | Left \<Rightarrow> (fst h - 1, snd h)
      | Right \<Rightarrow> (fst h + 1, snd h))"

text \<open>The wall test of lines 632 and 633.\<close>

definition hitsWall :: "boundedGame \<Rightarrow> cell \<Rightarrow> bool" where
  "hitsWall s head =
     (fst head < 0 \<or>
      real_of_int (fst head) \<ge> real_of_int (canvasWidth s) / real_of_int (pixelSize s) \<or>
      snd head < 0 \<or>
      real_of_int (snd head) \<ge> real_of_int (canvasHeight s) / real_of_int (pixelSize s))"

text \<open>\<^verbatim>\<open>generateFood\<close> of lines 755 to 762, and the state written by \<^verbatim>\<open>showGameOverMenu\<close>.\<close>

definition draw_walls :: "boundedGame \<Rightarrow> (nat \<Rightarrow> real) \<Rightarrow> nat \<Rightarrow> cell" where
  "draw_walls s rnd n =
     (\<lfloor>rnd n * (real_of_int (canvasWidth s) / real_of_int (pixelSize s))\<rfloor>,
      \<lfloor>rnd (n + 1) * (real_of_int (canvasHeight s) / real_of_int (pixelSize s))\<rfloor>)"

partial_function (option) generateFood_walls ::
  "boundedGame \<Rightarrow> (nat \<Rightarrow> real) \<Rightarrow> nat \<Rightarrow> (cell \<times> nat) option" where
  "generateFood_walls s rnd n =
     (if occupied (snake s) (draw_walls s rnd n) then generateFood_walls s rnd (n + 2)
      else Some (draw_walls s rnd n, n + 2))"

definition showGameOverMenu_walls :: "boundedGame \<Rightarrow> boundedGame" where
  "showGameOverMenu_walls s = (if score s > highScore s then s\<lparr>highScore := score s\<rparr> else s)"

text \<open>\<^verbatim>\<open>updateGameState\<close> of lines 614 to 670.\<close>

definition updateGameState_walls ::
  "(nat \<Rightarrow> real) \<Rightarrow> nat \<Rightarrow> boundedGame \<Rightarrow> (error + boundedGame \<times> nat) option" where
  "updateGameState_walls rnd n s =
     (if gameOver s \<or> isPaused s then Some (Inr (s, n))
      else
        let s1 = s\<lparr>direction := nextDirection s\<rparr> in
        case snake s1 of
          [] \<Rightarrow> Some (Inl TypeError)
        | h # _ \<Rightarrow>
            let head = moveHead_walls (direction s1) (coords h) in
            if hitsWall s1 head
            then Some (Inr (showGameOverMenu_walls (s1\<lparr>gameOver := True\<rparr>), n))
            else if occupied (snake s1) head
            then Some (Inr (showGameOverMenu_walls (s1\<lparr>gameOver := True\<rparr>), n))
            else
              let newHead = \<lparr>seg_x = fst head, seg_y = snd head,
                             actualX = Some (seg_x h * pixelSize s1),
                             actualY = Some (seg_y h * pixelSize s1)\<rparr>;
                  s2 = s1\<lparr>snake := newHead # snake s1\<rparr>
              in if head = food s2 then
                   (case generateFood_walls s2 rnd n of
                      None \<Rightarrow> None
                    | Some (f, n') \<Rightarrow>
                        let s3 = s2\<lparr>score := score s2 + 10, food := f\<rparr>
                        in Some (Inr
                             (if moveInterval s3 > 50
                              then s3\<lparr>moveInterval := moveInterval s3 - 2\<rparr>
                              else s3, n')))
                 else Some (Inr (s2\<lparr>snake := butlast (snake s2)\<rparr>, n)))"

subsection \<open>Reachable states\<close>

text \<open>
  The states a session can be in: a freshly opened modal, then ticks (each with whatever
  the random source delivers), direction offers, key presses and restarts, in any order.
  Window resizes, which rewrite pixel data and may redraw the food, are not among the
  steps.
\<close>

inductive reachable :: "settings \<Rightarrow> game \<Rightarrow> bool" for cfg :: settings where
  opened: "openGame cfg hs px rnd n = Some (s, n') \<Longrightarrow> reachable cfg s"
| tick: "reachable cfg s \<Longrightarrow> updateGameState cfg rnd n s = Some (Inr (s', n')) \<Longrightarrow> reachable cfg s'"
| offered: "reachable cfg s \<Longrightarrow> reachable cfg (offer d s)"
| key: "reachable cfg s \<Longrightarrow> reachable cfg (keyDownHandler k s)"
| restarted: "reachable cfg s \<Longrightarrow> reachable cfg (restartFromPause cfg s)"
| again: "reachable cfg s \<Longrightarrow> reachable cfg (playAgain cfg s)"

subsection \<open>Notions used to state the properties\<close>

text \<open>
  The cell a running tick computes for the new head: the oldest queued direction (or the
  current one when the queue is empty) applied to the first segment.
\<close>

definition nextHead :: "settings \<Rightarrow> game \<Rightarrow> cell" where
  "nextHead cfg s = moveHead (gridSize cfg) (direction (processQueue s)) (coords (hd (snake s)))"

text \<open>The snake after \<^verbatim>\<open>unshift(newHead)\<close>, and the state after a tick that ate.\<close>

definition grown :: "settings \<Rightarrow> game \<Rightarrow> segment list" where
  "grown cfg s =
     \<lparr>seg_x = fst (nextHead cfg s), seg_y = snd (nextHead cfg s),
      actualX = Some (seg_x (hd (snake s)) * pixelSize s),
      actualY = Some (seg_y (hd (snake s)) * pixelSize s)\<rparr> # snake s"

definition fed :: "settings \<Rightarrow> game \<Rightarrow> cell \<Rightarrow> game" where
  "fed cfg s f =
     (processQueue s)\<lparr>snake := grown cfg s, score := score s + 10, food := f,
        moveInterval := (if speedIncrease cfg > 0 \<and> moveInterval s > 50
                         then moveInterval s - speedIncrease cfg else moveInterval s)\<rparr>"

text \<open>
  The specification's words, to compare with the code: the 180 degree reverse of a
  direction, and one step in a direction before any boundary rule is applied.
\<close>

fun opposite :: "direction \<Rightarrow> direction" where
  "opposite Up = Down"
| "opposite Down = Up"
| "opposite Left = Right"
| "opposite Right = Left"

fun advance :: "direction \<Rightarrow> cell \<Rightarrow> cell" where
  "advance Up (cx, cy) = (cx, cy - 1)"
| "advance Down (cx, cy) = (cx, cy + 1)"
| "advance Left (cx, cy) = (cx - 1, cy)"
| "advance Right (cx, cy) = (cx + 1, cy)"

definition inGrid :: "int \<Rightarrow> cell \<Rightarrow> bool" where
  "inGrid g c = (0 \<le> fst c \<and> fst c < g \<and> 0 \<le> snd c \<and> snd c < g)"

text \<open>
  The number of columns and rows a head can be on in the earlier version: the least whole
  numbers not below the two quotients of its wall test.
\<close>

definition columns :: "boundedGame \<Rightarrow> int" where
  "columns s = \<lceil>real_of_int (canvasWidth s) / real_of_int (pixelSize s)\<rceil>"

definition rows :: "boundedGame \<Rightarrow> int" where
  "rows s = \<lceil>real_of_int (canvasHeight s) / real_of_int (pixelSize s)\<rceil>"

subsection \<open>Concrete sessions\<close>

text \<open>The shipped defaults, and random sources given by their first values.\<close>

definition DEFAULT_SETTINGS :: settings where
  "DEFAULT_SETTINGS = \<lparr>gameSpeed = 150, gridSize = 20, speedIncrease = 2\<rparr>"

definition draws_of :: "real list \<Rightarrow> nat \<Rightarrow> real" where
  "draws_of xs i = (if i < length xs then xs ! i else 0)"

definition quarters :: "nat \<Rightarrow> real" where
  "quarters i = 1 / 4"

definition segmentAt :: "int \<Rightarrow> int \<Rightarrow> segment" where
  "segmentAt cx cy = \<lparr>seg_x = cx, seg_y = cy, actualX = None, actualY = None\<rparr>"

text \<open>A modal opened with the defaults whose first food draw is the cell (5, 5).\<close>

definition freshGame :: game where
  "freshGame =
     \<lparr>snake = [segmentAt 10 10], food = (5, 5), direction = Right, nextDirection = Right,
      score = 0, pixelSize = 20, gameOver = False, gameStarted = False,
      moveInterval = 150, isPaused = False, inputQueue = [], highScore = 0\<rparr>"

text \<open>The same modal one tick later: the snake has moved right by one cell.\<close>

definition movedGame :: game where
  "movedGame = freshGame
     \<lparr>snake := [\<lparr>seg_x = 11, seg_y = 10, actualX = Some 200, actualY = Some 200\<rparr>]\<rparr>"

text \<open>
  The specification's first scenario: the food lies right of the start cell and is eaten
  on the first tick.
\<close>

definition scenarioDraws :: "nat \<Rightarrow> real" where
  "scenarioDraws = draws_of [23 / 40, 21 / 40, 1 / 4, 1 / 4]"

definition scenarioGame :: game where
  "scenarioGame = freshGame\<lparr>food := (11, 10)\<rparr>"

definition fedGame :: game where
  "fedGame = scenarioGame
     \<lparr>snake := [\<lparr>seg_x = 11, seg_y = 10, actualX = Some 200, actualY = Some 200\<rparr>,
                segmentAt 10 10],
      score := 10, food := (5, 5), moveInterval := 148\<rparr>"

text \<open>The closed loop of the third scenario, heading right into its own second cell.\<close>

definition loopGame :: game where
  "loopGame = freshGame
     \<lparr>snake := [segmentAt 5 5, segmentAt 6 5, segmentAt 6 6, segmentAt 5 6], food := (0, 0)\<rparr>"

text \<open>A one-cell snake on the right edge, heading right, and the state one tick later.\<close>

definition edgeGame :: game where
  "edgeGame = freshGame\<lparr>snake := [segmentAt 19 10]\<rparr>"

definition wrappedGame :: game where
  "wrappedGame = edgeGame
     \<lparr>snake := [\<lparr>seg_x = 0, seg_y = 10, actualX = Some 380, actualY = Some 200\<rparr>]\<rparr>"

text \<open>
  A session with settings the sliders offer (speed 60, ten cells per side, speed step 7)
  in which the snake eats on its first two ticks.
\<close>

definition fastSettings :: settings where
  "fastSettings = \<lparr>gameSpeed = 60, gridSize = 10, speedIncrease = 7\<rparr>"

definition bugDraws :: "nat \<Rightarrow> real" where
  "bugDraws = draws_of [13 / 20, 11 / 20, 15 / 20, 11 / 20, 1 / 4, 1 / 4]"

definition bugGame0 :: game where
  "bugGame0 =
     \<lparr>snake = [segmentAt 5 5], food = (6, 5), direction = Right, nextDirection = Right,
      score = 0, pixelSize = 40, gameOver = False, gameStarted = False,
      moveInterval = 60, isPaused = False, inputQueue = [], highScore = 0\<rparr>"

definition bugGame1 :: game where
  "bugGame1 = bugGame0\<lparr>gameStarted := True\<rparr>"

definition bugGame2 :: game where
  "bugGame2 = bugGame1
     \<lparr>snake := [\<lparr>seg_x = 6, seg_y = 5, actualX = Some 200, actualY = Some 200\<rparr>,
                segmentAt 5 5],
      score := 10, food := (7, 5), moveInterval := 53\<rparr>"

definition bugGame3 :: game where
  "bugGame3 = bugGame2
     \<lparr>snake := [\<lparr>seg_x = 7, seg_y = 5, actualX = Some 240, actualY = Some 200\<rparr>,
                \<lparr>seg_x = 6, seg_y = 5, actualX = Some 200, actualY = Some 200\<rparr>,
                segmentAt 5 5],
      score := 20, food := (2, 2), moveInterval := 46\<rparr>"

text \<open>
  The default session after Enter and \<open>k + 1\<close> ticks to the right; after nine ticks the
  head is on the right edge.
\<close>

definition walkGame :: "nat \<Rightarrow> game" where
  "walkGame k = freshGame
     \<lparr>gameStarted := True,
      snake := [\<lparr>seg_x = 11 + int k, seg_y = 10,
                 actualX = Some ((10 + int k) * 20), actualY = Some 200\<rparr>]\<rparr>"

text \<open>
  A session of the earlier version: a snake that has eaten once, with its head on the
  right edge of the 400 pixel canvas and heading right.
\<close>

definition wallGame :: boundedGame where
  "wallGame =
     \<lparr>snake = [\<lparr>seg_x = 19, seg_y = 10, actualX = Some 360, actualY = Some 200\<rparr>,
               \<lparr>seg_x = 18, seg_y = 10, actualX = Some 340, actualY = Some 200\<rparr>],
      food = (5, 5), direction = Right, nextDirection = Right,
      score = 10, pixelSize = 20, gameOver = False, gameStarted = True,
      moveInterval = 148, isPaused = False, inputQueue = [], highScore = 0,
      canvasWidth = 400, canvasHeight = 400\<rparr>"

text \<open>
  A random source that sweeps the grid: round \<open>k\<close> draws the middle of the cell in column
  \<open>k mod g\<close> and row \<open>(k div g) mod g\<close>. And the promise of \<^verbatim>\<open>Math.random\<close>.
\<close>

definition sweep :: "int \<Rightarrow> nat \<Rightarrow> real" where
  "sweep g i =
     (of_int (if even i then int (i div 2) mod g else (int (i div 2) div g) mod g) + 1 / 2)
       / of_int g"

definition unitDraws :: "(nat \<Rightarrow> real) \<Rightarrow> bool" where
  "unitDraws rnd = (\<forall>i. 0 \<le> rnd i \<and> rnd i < 1)"

section \<open>Properties\<close>

subsection \<open>Basic facts\<close>

lemma occupied_iff: "occupied snk c \<longleftrightarrow> c \<in> set (map coords snk)"
  by (force simp: occupied_def coords_def list_ex_iff)

lemma occupied_Nil [simp]: "\<not> occupied [] c"
  by (simp add: occupied_def)

lemma processQueue_fields [simp]:
  "snake (processQueue s) = snake s"
  "food (processQueue s) = food s"
  "score (processQueue s) = score s"
  "moveInterval (processQueue s) = moveInterval s"
  "gameOver (processQueue s) = gameOver s"
  "isPaused (processQueue s) = isPaused s"
  "pixelSize (processQueue s) = pixelSize s"
  "highScore (processQueue s) = highScore s"
  by (simp_all add: processQueue_def split: list.splits)

lemma showGameOverMenu_fields [simp]:
  "snake (showGameOverMenu s) = snake s"
  "food (showGameOverMenu s) = food s"
  "score (showGameOverMenu s) = score s"
  "moveInterval (showGameOverMenu s) = moveInterval s"
  "gameOver (showGameOverMenu s) = gameOver s"
  "isPaused (showGameOverMenu s) = isPaused s"
  "direction (showGameOverMenu s) = direction s"
  "inputQueue (showGameOverMenu s) = inputQueue s"
  by (simp_all add: showGameOverMenu_def)

lemma grown_snake [simp]:
  "length (grown cfg s) = Suc (length (snake s))"
  "map coords (grown cfg s) = nextHead cfg s # map coords (snake s)"
  "grown cfg s \<noteq> []"
  by (simp_all add: grown_def coords_def)

lemma fed_fields [simp]:
  "snake (fed cfg s f) = grown cfg s"
  "score (fed cfg s f) = score s + 10"
  "food (fed cfg s f) = f"
  "gameOver (fed cfg s f) = gameOver s"
  by (simp_all add: fed_def)

lemma initializeGame_fields [simp]:
  "length (snake (initializeGame cfg s)) = 1"
  "distinct (map coords (snake (initializeGame cfg s)))"
  "score (initializeGame cfg s) = 0"
  "moveInterval (initializeGame cfg s) = gameSpeed cfg"
  by (simp_all add: initializeGame_def Let_def)

lemma offer_fields [simp]:
  "snake (offer d s) = snake s"
  "score (offer d s) = score s"
  "moveInterval (offer d s) = moveInterval s"
  "gameOver (offer d s) = gameOver s"
  by (simp_all add: offer_def)

lemma keyDownHandler_fields [simp]:
  "snake (keyDownHandler k s) = snake s"
  "score (keyDownHandler k s) = score s"
  "moveInterval (keyDownHandler k s) = moveInterval s"
  "gameOver (keyDownHandler k s) = gameOver s"
  by (simp_all add: keyDownHandler_def startGame_def togglePause_def split: option.splits)

lemma openGame_fields:
  assumes "openGame cfg hs px rnd n = Some (s, n')"
  shows "length (snake s) = 1" "distinct (map coords (snake s))" "score s = 0"
    "moveInterval s = gameSpeed cfg"
  using assms by (auto simp: openGame_def Let_def initializeGame_def split: option.splits)

subsection \<open>The wrapping step\<close>

text \<open>On the grid the truncating remainder of the code is the usual \<open>mod\<close>.\<close>

lemma moveHead_mod:
  assumes "0 < g" "inGrid g c"
  shows "moveHead g d c = (fst (advance d c) mod g, snd (advance d c) mod g)"
proof -
  obtain cx cy where c: "c = (cx, cy)" by (cases c)
  from assms c have r: "0 \<le> cx" "cx < g" "0 \<le> cy" "cy < g"
    by (simp_all add: inGrid_def)
  have dec: "(k - 1 + g) smod g = (k - 1) mod g" if "0 \<le> k" for k
  proof -
    from that assms(1) have "(k - 1 + g) smod g = (k - 1 + g) mod g"
      by (intro smod_mod_positive) simp_all
    then show ?thesis by simp
  qed
  have inc: "(k + 1) smod g = (k + 1) mod g" if "0 \<le> k" for k
    using that assms(1) by (intro smod_mod_positive) simp_all
  from r show ?thesis
    by (cases d) (simp_all add: c moveHead_def dec inc)
qed

lemma moveHead_inGrid:
  assumes "0 < g" "inGrid g c"
  shows "inGrid g (moveHead g d c)"
  using assms(1) by (simp add: moveHead_mod [OF assms] inGrid_def)

subsection \<open>The food loop\<close>

text \<open>One round at a time.\<close>

lemma generateFood_free:
  "\<not> occupied snk (draw g rnd n) \<Longrightarrow> generateFood g snk rnd n = Some (draw g rnd n, n + 2)"
  by (subst generateFood.simps) simp

lemma generateFood_retry:
  "occupied snk (draw g rnd n) \<Longrightarrow> generateFood g snk rnd n = generateFood g snk rnd (n + 2)"
  by (subst generateFood.simps) simp

text \<open>
  Whatever the loop returns is a free cell, drawn in some round \<open>k\<close>; and it returns at
  the first round whose draw is free.
\<close>

lemma generateFood_sound:
  assumes "generateFood g snk rnd n = Some r"
  shows "\<not> occupied snk (fst r) \<and> (\<exists>k. fst r = draw g rnd (n + 2 * k) \<and> snd r = n + 2 * k + 2)"
proof (rule generateFood.raw_induct
    [where P = "\<lambda>g snk rnd n r. \<not> occupied snk (fst r) \<and>
        (\<exists>k. fst r = draw g rnd (n + 2 * k) \<and> snd r = n + 2 * k + 2)", OF _ assms])
  fix loop :: "int \<Rightarrow> segment list \<Rightarrow> (nat \<Rightarrow> real) \<Rightarrow> nat \<Rightarrow> (cell \<times> nat) option"
  fix g snk rnd n r
  assume IH: "\<And>g snk rnd n r. loop g snk rnd n = Some r \<Longrightarrow>
      \<not> occupied snk (fst r) \<and> (\<exists>k. fst r = draw g rnd (n + 2 * k) \<and> snd r = n + 2 * k + 2)"
    and body: "(if occupied snk (draw g rnd n) then loop g snk rnd (n + 2)
                else Some (draw g rnd n, n + 2)) = Some r"
  show "\<not> occupied snk (fst r) \<and> (\<exists>k. fst r = draw g rnd (n + 2 * k) \<and> snd r = n + 2 * k + 2)"
  proof (cases "occupied snk (draw g rnd n)")
    case True
    with body have "loop g snk rnd (n + 2) = Some r" by simp
    from IH [OF this] obtain k where
      "\<not> occupied snk (fst r)" "fst r = draw g rnd (n + 2 + 2 * k)" "snd r = n + 2 + 2 * k + 2"
      by blast
    then have "\<not> occupied snk (fst r) \<and> fst r = draw g rnd (n + 2 * Suc k)
        \<and> snd r = n + 2 * Suc k + 2"
      by simp
    then show ?thesis by blast
  next
    case False
    with body have "r = (draw g rnd n, n + 2)" by simp
    with False have "\<not> occupied snk (fst r) \<and> fst r = draw g rnd (n + 2 * 0)
        \<and> snd r = n + 2 * 0 + 2"
      by simp
    then show ?thesis by blast
  qed
qed

lemma draw_inGrid:
  assumes "0 < g" "unitDraws rnd"
  shows "inGrid g (draw g rnd m)"
proof -
  have one: "0 \<le> \<lfloor>r * of_int g\<rfloor> \<and> \<lfloor>r * of_int g\<rfloor> < g" if "0 \<le> r" "r < 1" for r :: real
  proof
    from that(1) assms(1) show "0 \<le> \<lfloor>r * of_int g\<rfloor>" by simp
    from that(2) assms(1) have "r * of_int g < of_int g" by simp
    then show "\<lfloor>r * of_int g\<rfloor> < g" by (simp add: floor_less_iff)
  qed
  from assms(2) have "0 \<le> rnd m" "rnd m < 1" "0 \<le> rnd (m + 1)" "rnd (m + 1) < 1"
    by (simp_all add: unitDraws_def)
  then show ?thesis
    using one [of "rnd m"] one [of "rnd (m + 1)"] by (simp add: inGrid_def draw_def)
qed

lemma generateFood_first_free:
  "\<not> occupied snk (draw g rnd (n + 2 * k)) \<Longrightarrow>
   (\<And>j. j < k \<Longrightarrow> occupied snk (draw g rnd (n + 2 * j))) \<Longrightarrow>
   generateFood g snk rnd n = Some (draw g rnd (n + 2 * k), n + 2 * k + 2)"
proof (induction k arbitrary: n)
  case 0
  then show ?case by (simp add: generateFood_free)
next
  case (Suc k)
  from Suc.prems(2) [of 0] have "occupied snk (draw g rnd n)" by simp
  then have "generateFood g snk rnd n = generateFood g snk rnd (n + 2)"
    by (rule generateFood_retry)
  also have "\<dots> = Some (draw g rnd (n + 2 + 2 * k), n + 2 + 2 * k + 2)"
  proof (rule Suc.IH)
    from Suc.prems(1) show "\<not> occupied snk (draw g rnd (n + 2 + 2 * k))" by simp
    fix j assume "j < k"
    then have "Suc j < Suc k" by simp
    from Suc.prems(2) [OF this] show "occupied snk (draw g rnd (n + 2 + 2 * j))" by simp
  qed
  finally show ?case by simp
qed

lemma generateFood_returns_iff:
  "(\<exists>r. generateFood g snk rnd n = Some r) \<longleftrightarrow> (\<exists>k. \<not> occupied snk (draw g rnd (n + 2 * k)))"
proof
  assume "\<exists>r. generateFood g snk rnd n = Some r"
  then obtain r where "generateFood g snk rnd n = Some r" ..
  from generateFood_sound [OF this] show "\<exists>k. \<not> occupied snk (draw g rnd (n + 2 * k))"
    by metis
next
  assume "\<exists>k. \<not> occupied snk (draw g rnd (n + 2 * k))"
  then obtain k where k: "\<not> occupied snk (draw g rnd (n + 2 * k))"
    and least: "\<And>j. j < k \<Longrightarrow> occupied snk (draw g rnd (n + 2 * j))"
    using exists_least_iff [of "\<lambda>k. \<not> occupied snk (draw g rnd (n + 2 * k))"] by auto
  from generateFood_first_free [OF k least] show "\<exists>r. generateFood g snk rnd n = Some r"
    by simp
qed

text \<open>The sweeping source draws every cell of the grid, and stays within \<open>[0, 1)\<close>.\<close>

lemma floor_mid:
  assumes "0 < g"
  shows "\<lfloor>(real_of_int m + 1 / 2) / real_of_int g * real_of_int g\<rfloor> = m"
proof -
  from assms have "(real_of_int m + 1 / 2) / real_of_int g * real_of_int g = real_of_int m + 1 / 2"
    by simp
  moreover have "\<lfloor>real_of_int m + 1 / 2\<rfloor> = m"
    by (rule floor_unique) simp_all
  ultimately show ?thesis by simp
qed

lemma draw_sweep:
  assumes "0 < g"
  shows "draw g (sweep g) (2 * k) = (int k mod g, (int k div g) mod g)"
  using assms by (simp add: draw_def sweep_def floor_mid)

lemma sweep_fair:
  assumes "0 < g" "inGrid g c"
  shows "\<exists>k. draw g (sweep g) (0 + 2 * k) = c"
proof -
  obtain cx cy where c: "c = (cx, cy)" by (cases c)
  with assms(2) have r: "0 \<le> cx" "cx < g" "0 \<le> cy" "cy < g" by (simp_all add: inGrid_def)
  let ?k = "nat (cx + g * cy)"
  from r assms(1) have k: "int ?k = cx + g * cy" by simp
  have "draw g (sweep g) (2 * ?k) = ((cx + g * cy) mod g, ((cx + g * cy) div g) mod g)"
    unfolding draw_sweep [OF assms(1)] k ..
  also from r assms(1) have "\<dots> = (cx, cy)" by simp
  finally have "draw g (sweep g) (0 + 2 * ?k) = c" by (simp add: c)
  then show ?thesis ..
qed

lemma unitDraws_sweep:
  assumes "0 < g"
  shows "unitDraws (sweep g)"
  unfolding unitDraws_def
proof
  fix i
  define m where "m = (if even i then int (i div 2) mod g else (int (i div 2) div g) mod g)"
  from assms have m: "0 \<le> m" "m < g" by (simp_all add: m_def)
  have s: "sweep g i = (real_of_int m + 1 / 2) / real_of_int g"
    by (simp add: sweep_def m_def)
  from m(1) assms have "0 \<le> (real_of_int m + 1 / 2) / real_of_int g" by simp
  moreover from m(2) have "m + 1 \<le> g" by simp
  then have "real_of_int m + 1 \<le> real_of_int g" by linarith
  then have "real_of_int m + 1 / 2 < real_of_int g" by simp
  with assms have "(real_of_int m + 1 / 2) / real_of_int g < 1" by simp
  ultimately show "0 \<le> sweep g i \<and> sweep g i < 1" by (simp add: s)
qed

subsection \<open>The branches of a tick\<close>

lemma tick_idle:
  "gameOver s \<or> isPaused s \<Longrightarrow> updateGameState cfg rnd n s = Some (Inr (s, n))"
  by (simp add: updateGameState_def)

lemma tick_empty:
  "\<not> gameOver s \<Longrightarrow> \<not> isPaused s \<Longrightarrow> snake s = [] \<Longrightarrow>
   updateGameState cfg rnd n s = Some (Inl TypeError)"
  by (simp add: updateGameState_def)

lemma tick_running:
  assumes "\<not> gameOver s" "\<not> isPaused s" "snake s \<noteq> []"
  shows "updateGameState cfg rnd n s =
     (if occupied (snake s) (nextHead cfg s)
      then Some (Inr (showGameOverMenu (processQueue s\<lparr>gameOver := True\<rparr>), n))
      else if nextHead cfg s = food s
      then (case generateFood (gridSize cfg) (grown cfg s) rnd n of
              None \<Rightarrow> None
            | Some (f, n') \<Rightarrow> Some (Inr (fed cfg s f, n')))
      else Some (Inr (processQueue s\<lparr>snake := butlast (grown cfg s)\<rparr>, n)))"
proof -
  from assms(3) obtain h q where hq: "snake s = h # q"
    by (cases "snake s") auto
  show ?thesis
    using assms(1,2) hq
    by (simp add: updateGameState_def Let_def nextHead_def grown_def fed_def
        split: option.splits)
qed

lemma tick_outcome:
  assumes "updateGameState cfg rnd n s = Some (Inr (s', n'))"
  shows "(snake s' = snake s \<and> score s' = score s \<and> moveInterval s' = moveInterval s) \<or>
         (snake s \<noteq> [] \<and> \<not> occupied (snake s) (nextHead cfg s) \<and>
          ((\<exists>f. s' = fed cfg s f) \<or> s' = processQueue s\<lparr>snake := butlast (grown cfg s)\<rparr>))"
proof (cases "gameOver s \<or> isPaused s")
  case True
  with assms show ?thesis by (simp add: tick_idle)
next
  case False
  then have run: "\<not> gameOver s" "\<not> isPaused s" by simp_all
  show ?thesis
  proof (cases "snake s = []")
    case True
    with run assms show ?thesis by (simp add: tick_empty)
  next
    case False
    from assms False show ?thesis
      unfolding tick_running [OF run False]
      by (auto split: if_splits option.splits)
  qed
qed

lemma tick_head:
  assumes "\<not> gameOver s" "\<not> isPaused s" "snake s \<noteq> []"
  shows "case updateGameState cfg rnd n s of
           None \<Rightarrow> \<not> occupied (snake s) (nextHead cfg s) \<and> nextHead cfg s = food s
                    \<and> generateFood (gridSize cfg) (grown cfg s) rnd n = None
         | Some (Inl e) \<Rightarrow> False
         | Some (Inr (s', n')) \<Rightarrow>
             (if occupied (snake s) (nextHead cfg s)
              then gameOver s' \<and> snake s' = snake s \<and> score s' = score s \<and> food s' = food s
              else \<not> gameOver s' \<and> coords (hd (snake s')) = nextHead cfg s)"
  using assms
  by (simp add: tick_running [OF assms] grown_def coords_def split: option.splits)

lemma tick_moveInterval:
  assumes "updateGameState cfg rnd n s = Some (Inr (s', n'))"
  shows "moveInterval s' = moveInterval s \<or>
         (0 < speedIncrease cfg \<and> 50 < moveInterval s
          \<and> moveInterval s' = moveInterval s - speedIncrease cfg)"
  using tick_outcome [OF assms] by (auto simp: fed_def split: if_splits)

subsection \<open>The earlier tick at a wall\<close>

lemma moveHead_walls_advance: "moveHead_walls d c = advance d c"
  by (cases d; cases c) (simp_all add: moveHead_walls_def)

lemma hitsWall_edge:
  assumes "fst a = - 1 \<or> fst a = columns s \<or> snd a = - 1 \<or> snd a = rows s"
  shows "hitsWall s a"
proof -
  have "real_of_int (canvasWidth s) / real_of_int (pixelSize s) \<le> real_of_int (columns s)"
    "real_of_int (canvasHeight s) / real_of_int (pixelSize s) \<le> real_of_int (rows s)"
    by (simp_all add: columns_def rows_def)
  with assms show ?thesis
    by (auto simp: hitsWall_def)
qed

subsection \<open>Invariants of the reachable states\<close>

lemma tick_distinct:
  assumes "updateGameState cfg rnd n s = Some (Inr (s', n'))"
    and "distinct (map coords (snake s))" and "snake s \<noteq> []"
  shows "distinct (map coords (snake s')) \<and> snake s' \<noteq> []"
  using tick_outcome [OF assms(1)]
proof (elim disjE conjE exE)
  assume "snake s' = snake s"
  with assms(2,3) show ?thesis by simp
next
  fix f assume "\<not> occupied (snake s) (nextHead cfg s)" "s' = fed cfg s f"
  with assms(2) show ?thesis by (simp add: occupied_iff)
next
  assume free: "\<not> occupied (snake s) (nextHead cfg s)"
    and s': "s' = processQueue s\<lparr>snake := butlast (grown cfg s)\<rparr>"
  from free assms(2) have "distinct (map coords (grown cfg s))"
    by (simp add: occupied_iff)
  then have "distinct (butlast (map coords (grown cfg s)))"
    by (rule distinct_butlast)
  then have "distinct (map coords (butlast (grown cfg s)))"
    by (simp only: map_butlast)
  moreover from assms(3) have "butlast (grown cfg s) \<noteq> []"
    by (simp add: grown_def)
  ultimately show ?thesis using s' by simp
qed

lemma reachable_snake:
  "reachable cfg s \<Longrightarrow> distinct (map coords (snake s)) \<and> snake s \<noteq> []"
proof (induction rule: reachable.induct)
  case (opened hs px rnd n s n')
  from openGame_fields(1,2) [OF this] show ?case by auto
next
  case (tick s rnd n s' n')
  then show ?case using tick_distinct by blast
qed (simp_all add: restartFromPause_def playAgain_def initializeGame_def Let_def)

lemma tick_score:
  assumes "updateGameState cfg rnd n s = Some (Inr (s', n'))"
    and "score s = 10 * (int (length (snake s)) - 1)" and "snake s \<noteq> []"
  shows "score s' = 10 * (int (length (snake s')) - 1)"
  using tick_outcome [OF assms(1)] assms(2,3)
  by (auto simp: grown_def)

lemma reachable_score:
  "reachable cfg s \<Longrightarrow> score s = 10 * (int (length (snake s)) - 1)"
proof (induction rule: reachable.induct)
  case (opened hs px rnd n s n')
  from openGame_fields(1,3) [OF this] show ?case by simp
next
  case (tick s rnd n s' n')
  then show ?case using tick_score reachable_snake by blast
qed (simp_all add: restartFromPause_def playAgain_def)

text \<open>Every segment stays on the grid.\<close>

lemma tick_inGrid:
  assumes "updateGameState cfg rnd n s = Some (Inr (s', n'))"
    and "0 < gridSize cfg"
    and "\<forall>seg \<in> set (snake s). inGrid (gridSize cfg) (coords seg)"
  shows "\<forall>seg \<in> set (snake s'). inGrid (gridSize cfg) (coords seg)"
proof -
  have new: "inGrid (gridSize cfg) (nextHead cfg s)" if "snake s \<noteq> []"
    unfolding nextHead_def using that assms(3)
    by (intro moveHead_inGrid [OF assms(2)]) simp
  have all: "\<forall>seg \<in> set (grown cfg s). inGrid (gridSize cfg) (coords seg)"
    if "snake s \<noteq> []"
    using new [OF that] assms(3) by (simp add: grown_def coords_def)
  from tick_outcome [OF assms(1)] show ?thesis
  proof (elim disjE conjE exE)
    assume "snake s' = snake s"
    with assms(3) show ?thesis by simp
  next
    fix f assume "snake s \<noteq> []" "s' = fed cfg s f"
    with all show ?thesis by simp
  next
    assume ne: "snake s \<noteq> []" and s': "s' = processQueue s\<lparr>snake := butlast (grown cfg s)\<rparr>"
    have "set (butlast (grown cfg s)) \<subseteq> set (grown cfg s)"
      by (auto dest: in_set_butlastD)
    with all [OF ne] s' show ?thesis by auto
  qed
qed

lemma reachable_inGrid:
  assumes "0 < gridSize cfg"
  shows "reachable cfg s \<Longrightarrow> \<forall>seg \<in> set (snake s). inGrid (gridSize cfg) (coords seg)"
proof (induction rule: reachable.induct)
  case (opened hs px rnd n s n')
  then show ?case using assms
    by (auto simp: openGame_def initializeGame_def Let_def inGrid_def coords_def
        split: option.splits)
next
  case (tick s rnd n s' n')
  from tick_inGrid [OF tick.hyps(2) assms tick.IH] show ?case .
qed (use assms in \<open>simp_all add: restartFromPause_def playAgain_def initializeGame_def Let_def
      inGrid_def coords_def\<close>)

text \<open>What the speed rule guarantees: the interval stays above 50 minus the step.\<close>

lemma reachable_moveInterval:
  assumes "50 \<le> gameSpeed cfg"
  shows "reachable cfg s \<Longrightarrow>
     50 \<le> moveInterval s \<or> (0 < speedIncrease cfg \<and> 50 - speedIncrease cfg < moveInterval s)"
proof (induction rule: reachable.induct)
  case (opened hs px rnd n s n')
  from openGame_fields(4) [OF this] assms show ?case by simp
next
  case (tick s rnd n s' n')
  from tick_moveInterval [OF tick.hyps(2)] tick.IH show ?case by auto
qed (simp_all add: restartFromPause_def playAgain_def assms)

subsection \<open>The concrete sessions, step by step\<close>

lemma unitDraws_quarters: "unitDraws quarters"
  by (simp add: unitDraws_def quarters_def)

lemma freshGame_opened:
  "openGame DEFAULT_SETTINGS 0 20 quarters 0 = Some (freshGame, 2)"
  by (simp add: openGame_def initializeGame_def DEFAULT_SETTINGS_def freshGame_def
      segmentAt_def generateFood_free occupied_def draw_def quarters_def)

lemma movedGame_tick:
  "updateGameState DEFAULT_SETTINGS quarters 2 freshGame = Some (Inr (movedGame, 2))"
  by (simp add: updateGameState_def processQueue_def freshGame_def movedGame_def
      DEFAULT_SETTINGS_def segmentAt_def moveHead_def coords_def occupied_def)

lemma scenarioDraws_simps [simp]:
  "scenarioDraws 0 = 23 / 40" "scenarioDraws (Suc 0) = 21 / 40"
  "scenarioDraws 2 = 1 / 4" "scenarioDraws 3 = 1 / 4"
  by (simp_all add: scenarioDraws_def draws_of_def)

lemma scenarioGame_opened:
  "openGame DEFAULT_SETTINGS 0 20 scenarioDraws 0 = Some (scenarioGame, 2)"
  by (simp add: openGame_def initializeGame_def DEFAULT_SETTINGS_def freshGame_def
      scenarioGame_def segmentAt_def generateFood_free occupied_def draw_def)

lemma fedGame_tick:
  "updateGameState DEFAULT_SETTINGS scenarioDraws 2 scenarioGame = Some (Inr (fedGame, 4))"
  by (simp add: updateGameState_def processQueue_def freshGame_def scenarioGame_def
      fedGame_def DEFAULT_SETTINGS_def segmentAt_def moveHead_def coords_def occupied_def
      generateFood_free draw_def)

lemma fedGame_reachable: "reachable DEFAULT_SETTINGS fedGame"
  by (rule reachable.tick [OF reachable.opened [OF scenarioGame_opened] fedGame_tick])

lemma loopGame_crash:
  "occupied (snake loopGame) (nextHead DEFAULT_SETTINGS loopGame)"
  by (simp add: loopGame_def freshGame_def nextHead_def processQueue_def moveHead_def
      coords_def occupied_def segmentAt_def DEFAULT_SETTINGS_def)

lemma edgeGame_tick:
  "updateGameState DEFAULT_SETTINGS quarters 2 edgeGame = Some (Inr (wrappedGame, 2))"
  by (simp add: updateGameState_def processQueue_def freshGame_def edgeGame_def wrappedGame_def
      DEFAULT_SETTINGS_def segmentAt_def moveHead_def coords_def occupied_def)

lemma bugDraws_simps [simp]:
  "bugDraws 0 = 13 / 20" "bugDraws (Suc 0) = 11 / 20"
  "bugDraws 2 = 15 / 20" "bugDraws 3 = 11 / 20"
  "bugDraws 4 = 1 / 4" "bugDraws 5 = 1 / 4"
  by (simp_all add: bugDraws_def draws_of_def)

lemma bugGame0_opened: "openGame fastSettings 0 40 bugDraws 0 = Some (bugGame0, 2)"
  by (simp add: openGame_def initializeGame_def fastSettings_def bugGame0_def
      segmentAt_def generateFood_free occupied_def draw_def)

lemma bugGame1_key: "keyDownHandler ''Enter'' bugGame0 = bugGame1"
  by (simp add: keyDownHandler_def startGame_def bugGame0_def bugGame1_def)

lemma bugGame2_tick: "updateGameState fastSettings bugDraws 2 bugGame1 = Some (Inr (bugGame2, 4))"
  by (simp add: updateGameState_def processQueue_def bugGame0_def bugGame1_def bugGame2_def
      fastSettings_def segmentAt_def moveHead_def coords_def occupied_def
      generateFood_free draw_def)

lemma bugGame3_tick: "updateGameState fastSettings bugDraws 4 bugGame2 = Some (Inr (bugGame3, 6))"
  by (simp add: updateGameState_def processQueue_def bugGame0_def bugGame1_def bugGame2_def
      bugGame3_def fastSettings_def segmentAt_def moveHead_def coords_def occupied_def
      generateFood_free draw_def)

lemma started_key: "keyDownHandler ''Enter'' freshGame = freshGame\<lparr>gameStarted := True\<rparr>"
  by (simp add: keyDownHandler_def startGame_def freshGame_def)

lemma walk_first:
  "updateGameState DEFAULT_SETTINGS rnd n (freshGame\<lparr>gameStarted := True\<rparr>)
     = Some (Inr (walkGame 0, n))"
  by (simp add: updateGameState_def processQueue_def freshGame_def walkGame_def
      DEFAULT_SETTINGS_def segmentAt_def moveHead_def coords_def occupied_def)

lemma walk_step:
  assumes "k < 8"
  shows "updateGameState DEFAULT_SETTINGS rnd n (walkGame k) = Some (Inr (walkGame (Suc k), n))"
proof -
  from assms have "(11 + int k + 1) smod 20 = 12 + int k"
    by (simp add: signed_modulo_int_def)
  with assms show ?thesis
    by (simp add: updateGameState_def processQueue_def freshGame_def walkGame_def
      DEFAULT_SETTINGS_def segmentAt_def moveHead_def coords_def occupied_def algebra_simps)
qed

lemma walkGame_reachable: "k \<le> 8 \<Longrightarrow> reachable DEFAULT_SETTINGS (walkGame k)"
proof (induction k)
  case 0
  have "reachable DEFAULT_SETTINGS (keyDownHandler ''Enter'' freshGame)"
    by (rule reachable.key [OF reachable.opened [OF freshGame_opened]])
  then have "reachable DEFAULT_SETTINGS (freshGame\<lparr>gameStarted := True\<rparr>)"
    by (simp only: started_key)
  then show ?case by (rule reachable.tick [OF _ walk_first [of quarters 2]])
next
  case (Suc k)
  then have "reachable DEFAULT_SETTINGS (walkGame k)" "k < 8" by simp_all
  then show ?case by (rule reachable.tick [OF _ walk_step [of k quarters 2]])
qed

lemma bugGame3_reachable: "reachable fastSettings bugGame3"
proof -
  have "reachable fastSettings (keyDownHandler ''Enter'' bugGame0)"
    by (rule reachable.key [OF reachable.opened [OF bugGame0_opened]])
  then have "reachable fastSettings bugGame1"
    by (simp only: bugGame1_key)
  then have "reachable fastSettings bugGame2"
    by (rule reachable.tick [OF _ bugGame2_tick])
  then show ?thesis
    by (rule reachable.tick [OF _ bugGame3_tick])
qed

section \<open>The claims of the specification\<close>

text \<open>
  C1. In every state reachable from a freshly opened game by ticks and direction offers
  (and, beyond the claim, by any key press or restart), no two snake cells share
  coordinates while \<open>gameOver\<close> is false, and the snake has at least one segment.
\<close>

theorem snake_cells_distinct:
  "reachable cfg s \<Longrightarrow>
     (\<not> gameOver s \<longrightarrow> distinct (map coords (snake s))) \<and> 1 \<le> length (snake s)"
  using reachable_snake [of cfg s] by (cases "snake s") simp_all

theorem snake_cells_distinct_witness:
  "reachable fastSettings bugGame3 \<and> \<not> gameOver bugGame3
   \<and> map coords (snake bugGame3) = [(7, 5), (6, 5), (5, 5)]
   \<and> distinct (map coords (snake bugGame3)) \<and> 1 \<le> length (snake bugGame3)"
  using snake_cells_distinct [OF bugGame3_reachable] bugGame3_reachable
  by (simp add: bugGame3_def bugGame2_def bugGame1_def bugGame0_def coords_def segmentAt_def)

text \<open>
  C2. When a tick gets to compute a new head (the game is neither over nor paused) and
  that cell has the coordinates of a snake segment, the tick returns with \<open>gameOver\<close>
  set and with snake, score, food and move interval as they were. No random number is
  drawn.
\<close>

theorem self_collision_game_over:
  assumes "\<not> gameOver s" and "\<not> isPaused s" and "occupied (snake s) (nextHead cfg s)"
  shows "\<exists>s'. updateGameState cfg rnd n s = Some (Inr (s', n)) \<and> gameOver s'
           \<and> snake s' = snake s \<and> score s' = score s \<and> food s' = food s
           \<and> moveInterval s' = moveInterval s"
proof -
  from assms(3) have "snake s \<noteq> []" by auto
  from tick_running [OF assms(1,2) this] assms(3) show ?thesis by simp
qed

theorem self_collision_game_over_witness:
  "\<not> gameOver loopGame \<and> \<not> isPaused loopGame
   \<and> nextHead DEFAULT_SETTINGS loopGame = (6, 5)
   \<and> updateGameState DEFAULT_SETTINGS quarters 0 loopGame
       = Some (Inr (loopGame\<lparr>gameOver := True\<rparr>, 0))"
proof -
  have run: "\<not> gameOver loopGame" "\<not> isPaused loopGame"
    by (simp_all add: loopGame_def freshGame_def)
  from self_collision_game_over [OF run loopGame_crash, of quarters 0]
  obtain s' where "updateGameState DEFAULT_SETTINGS quarters 0 loopGame = Some (Inr (s', 0))"
    by blast
  moreover have "updateGameState DEFAULT_SETTINGS quarters 0 loopGame
       = Some (Inr (loopGame\<lparr>gameOver := True\<rparr>, 0))"
    by (simp add: updateGameState_def loopGame_def freshGame_def processQueue_def moveHead_def
      coords_def occupied_def segmentAt_def DEFAULT_SETTINGS_def showGameOverMenu_def)
  moreover have "nextHead DEFAULT_SETTINGS loopGame = (6, 5)"
    by (simp add: loopGame_def freshGame_def nextHead_def processQueue_def moveHead_def
      coords_def segmentAt_def DEFAULT_SETTINGS_def)
  ultimately show ?thesis using run by simp
qed

text \<open>
  C3. A tick of a running game reaches the food check when its new head is not on the
  snake (the self-collision check of C2 comes first). Then: if the new head is the food
  cell, the tick returns exactly when the food loop does, the score is up by 10, the food
  is a new cell off the snake, and the snake is the old one with the new head in front
  (one longer, tail kept); otherwise the tick returns the old snake with the new head in
  front and the tail cell removed (same length), score and food unchanged.
\<close>

theorem tick_feeds_or_moves:
  assumes "\<not> gameOver s" and "\<not> isPaused s" and "snake s \<noteq> []"
    and "\<not> occupied (snake s) (nextHead cfg s)"
  shows "if nextHead cfg s = food s
         then (case generateFood (gridSize cfg) (grown cfg s) rnd n of
                 None \<Rightarrow> updateGameState cfg rnd n s = None
               | Some (f, n') \<Rightarrow>
                   (\<exists>s'. updateGameState cfg rnd n s = Some (Inr (s', n'))
                      \<and> score s' = score s + 10
                      \<and> food s' = f \<and> f \<noteq> food s \<and> \<not> occupied (snake s') f
                      \<and> length (snake s') = length (snake s) + 1
                      \<and> coords (hd (snake s')) = nextHead cfg s \<and> tl (snake s') = snake s))
         else (\<exists>s'. updateGameState cfg rnd n s = Some (Inr (s', n))
                 \<and> coords (hd (snake s')) = nextHead cfg s \<and> tl (snake s') = butlast (snake s)
                 \<and> length (snake s') = length (snake s)
                 \<and> score s' = score s \<and> food s' = food s)"
proof (cases "nextHead cfg s = food s")
  case eat: True
  show ?thesis
  proof (cases "generateFood (gridSize cfg) (grown cfg s) rnd n")
    case None
    with eat assms(4) show ?thesis
      by (simp add: tick_running [OF assms(1-3)])
  next
    case (Some r)
    obtain f n' where r: "r = (f, n')" by (cases r)
    from generateFood_sound [OF Some] r have free: "\<not> occupied (grown cfg s) f" by simp
    then have "f \<noteq> nextHead cfg s" by (auto simp: occupied_iff)
    with eat have "f \<noteq> food s" by simp
    with eat assms(4) Some r free show ?thesis
      by (simp add: tick_running [OF assms(1-3)] grown_def coords_def)
  qed
next
  case False
  with assms(3,4) show ?thesis
    by (simp add: tick_running [OF assms(1-3)] grown_def coords_def)
qed

theorem tick_feeds_or_moves_witness:
  "updateGameState DEFAULT_SETTINGS scenarioDraws 2 scenarioGame = Some (Inr (fedGame, 4))
   \<and> score fedGame = score scenarioGame + 10
   \<and> length (snake fedGame) = length (snake scenarioGame) + 1
   \<and> updateGameState DEFAULT_SETTINGS quarters 2 freshGame = Some (Inr (movedGame, 2))
   \<and> length (snake movedGame) = length (snake freshGame)"
proof -
  have fresh: "\<not> gameOver freshGame" "\<not> isPaused freshGame" "snake freshGame \<noteq> []"
    "\<not> occupied (snake freshGame) (nextHead DEFAULT_SETTINGS freshGame)"
    by (simp_all add: freshGame_def nextHead_def processQueue_def moveHead_def coords_def
        occupied_def segmentAt_def DEFAULT_SETTINGS_def)
  have scen: "\<not> gameOver scenarioGame" "\<not> isPaused scenarioGame" "snake scenarioGame \<noteq> []"
    "\<not> occupied (snake scenarioGame) (nextHead DEFAULT_SETTINGS scenarioGame)"
    by (simp_all add: scenarioGame_def freshGame_def nextHead_def processQueue_def
        moveHead_def coords_def occupied_def segmentAt_def DEFAULT_SETTINGS_def)
  from tick_feeds_or_moves [OF fresh, of quarters 2]
    tick_feeds_or_moves [OF scen, of scenarioDraws 2]
    fedGame_tick movedGame_tick
  show ?thesis
    by (simp add: fedGame_def scenarioGame_def movedGame_def freshGame_def)
qed

text \<open>
  C4, as the code has it. The bounded rule is the wall test of the earlier tick; it is a
  version of the code and not a configuration option. In that tick, for a running game
  where one step of the head in the direction in force gives coordinate -1 or the number
  of columns or rows, the tick returns with \<open>gameOver\<close> set and with snake, score, food
  and move interval as they were.
\<close>

theorem wall_hit_ends_game:
  assumes "\<not> gameOver s" and "\<not> isPaused s" and "snake s \<noteq> []" and "0 < pixelSize s"
    and "a = advance (nextDirection s) (coords (hd (snake s)))"
    and "fst a = - 1 \<or> fst a = columns s \<or> snd a = - 1 \<or> snd a = rows s"
  shows "\<exists>s'. updateGameState_walls rnd n s = Some (Inr (s', n)) \<and> gameOver s'
           \<and> snake s' = snake s \<and> score s' = score s \<and> food s' = food s
           \<and> moveInterval s' = moveInterval s"
proof -
  from assms(3) obtain h q where hq: "snake s = h # q" by (cases "snake s") auto
  have cols: "columns (s\<lparr>direction := nextDirection s\<rparr>) = columns s"
    and rws: "rows (s\<lparr>direction := nextDirection s\<rparr>) = rows s"
    by (simp_all add: columns_def rows_def)
  from assms(5,6) hq have "hitsWall (s\<lparr>direction := nextDirection s\<rparr>)
      (moveHead_walls (nextDirection s) (coords h))"
    by (intro hitsWall_edge) (simp add: moveHead_walls_advance cols rws)
  with assms(1,2) hq show ?thesis
    by (simp add: updateGameState_walls_def showGameOverMenu_walls_def Let_def)
qed

theorem wall_hit_ends_game_witness:
  "advance (nextDirection wallGame) (coords (hd (snake wallGame))) = (20, 10)
   \<and> columns wallGame = 20
   \<and> updateGameState_walls quarters 0 wallGame = Some (Inr (wallGame\<lparr>gameOver := True, highScore := 10\<rparr>, 0))"
proof -
  have pre: "\<not> gameOver wallGame" "\<not> isPaused wallGame" "snake wallGame \<noteq> []"
    "0 < pixelSize wallGame"
    by (simp_all add: wallGame_def)
  have adv: "(20, 10) = advance (nextDirection wallGame) (coords (hd (snake wallGame)))"
    by (simp add: wallGame_def coords_def)
  have cols: "columns wallGame = 20"
    by (simp add: columns_def wallGame_def)
  have out: "fst (20 :: int, 10 :: int) = - 1 \<or> fst (20 :: int, 10 :: int) = columns wallGame
      \<or> snd (20 :: int, 10 :: int) = - 1 \<or> snd (20 :: int, 10 :: int) = rows wallGame"
    by (simp add: cols)
  from wall_hit_ends_game [OF pre adv out, of quarters 0]
  obtain s' where "updateGameState_walls quarters 0 wallGame = Some (Inr (s', 0))" "gameOver s'"
    by blast
  moreover have "updateGameState_walls quarters 0 wallGame
      = Some (Inr (wallGame\<lparr>gameOver := True, highScore := 10\<rparr>, 0))"
    by (simp add: updateGameState_walls_def showGameOverMenu_walls_def wallGame_def
        moveHead_walls_def hitsWall_def coords_def)
  ultimately show ?thesis using adv cols by simp
qed

text \<open>
  C4 as stated fails in one point: no setting selects the bounded rule. The current tick
  is the one that reads the settings (the grid size and the speed step, nothing else), and
  whatever they are on a grid of the default size, when the head of a reachable running
  game steps off the right edge, no tick that returns has ended the game.
\<close>

theorem no_setting_stops_at_the_wall:
  "reachable DEFAULT_SETTINGS (walkGame 8)
   \<and> \<not> gameOver (walkGame 8) \<and> \<not> isPaused (walkGame 8)
   \<and> advance (direction (processQueue (walkGame 8))) (coords (hd (snake (walkGame 8))))
       = (gridSize DEFAULT_SETTINGS, 10)
   \<and> \<not> (\<exists>cfg rnd n s' n'.
          gridSize cfg = gridSize DEFAULT_SETTINGS
          \<and> updateGameState cfg rnd n (walkGame 8) = Some (Inr (s', n'))
          \<and> gameOver s')"
proof -
  have "reachable DEFAULT_SETTINGS (walkGame 8)"
    by (rule walkGame_reachable) simp
  moreover have "\<not> gameOver s'"
    if "gridSize cfg = gridSize DEFAULT_SETTINGS"
      and "updateGameState cfg rnd n (walkGame 8) = Some (Inr (s', n'))"
    for cfg rnd n s' n'
    using that
    by (auto simp: updateGameState_def processQueue_def freshGame_def walkGame_def
      DEFAULT_SETTINGS_def segmentAt_def moveHead_def coords_def occupied_def)
  ultimately show ?thesis
    by (auto simp: walkGame_def freshGame_def processQueue_def coords_def DEFAULT_SETTINGS_def)
qed

text \<open>
  C5. For a running game whose head is on the grid, the new head a tick computes is the
  head moved one step in the direction in force for that tick (the oldest queued one, or
  else the current one), both coordinates taken modulo \<open>gridSize\<close>; a tick that returns
  has either ended the game on a self-collision or put the snake's head on that cell.
  In particular, from x = \<open>gridSize - 1\<close> a step to the right gives x = 0.
\<close>

theorem head_wraps_modulo:
  assumes "0 < gridSize cfg" and "\<not> gameOver s" and "\<not> isPaused s" and "snake s \<noteq> []"
    and "inGrid (gridSize cfg) (coords (hd (snake s)))"
  shows "nextHead cfg s =
           (fst (advance (direction (processQueue s)) (coords (hd (snake s)))) mod gridSize cfg,
            snd (advance (direction (processQueue s)) (coords (hd (snake s)))) mod gridSize cfg)
         \<and> (case updateGameState cfg rnd n s of
               None \<Rightarrow> nextHead cfg s = food s
                        \<and> generateFood (gridSize cfg) (grown cfg s) rnd n = None
             | Some (Inl e) \<Rightarrow> False
             | Some (Inr (s', n')) \<Rightarrow>
                 (if occupied (snake s) (nextHead cfg s) then gameOver s'
                  else coords (hd (snake s')) = nextHead cfg s))
         \<and> (seg_x (hd (snake s)) = gridSize cfg - 1 \<and> direction (processQueue s) = Right
              \<longrightarrow> fst (nextHead cfg s) = 0)"
proof (intro conjI)
  show wrap: "nextHead cfg s =
           (fst (advance (direction (processQueue s)) (coords (hd (snake s)))) mod gridSize cfg,
            snd (advance (direction (processQueue s)) (coords (hd (snake s)))) mod gridSize cfg)"
    unfolding nextHead_def by (rule moveHead_mod [OF assms(1,5)])
  from tick_head [OF assms(2-4), of cfg rnd n]
  show "case updateGameState cfg rnd n s of
               None \<Rightarrow> nextHead cfg s = food s
                        \<and> generateFood (gridSize cfg) (grown cfg s) rnd n = None
             | Some (Inl e) \<Rightarrow> False
             | Some (Inr (s', n')) \<Rightarrow>
                 (if occupied (snake s) (nextHead cfg s) then gameOver s'
                  else coords (hd (snake s')) = nextHead cfg s)"
    by (auto split: option.splits sum.splits if_splits)
  show "seg_x (hd (snake s)) = gridSize cfg - 1 \<and> direction (processQueue s) = Right
              \<longrightarrow> fst (nextHead cfg s) = 0"
    by (simp add: wrap coords_def)
qed

theorem head_wraps_modulo_witness:
  "seg_x (hd (snake edgeGame)) = gridSize DEFAULT_SETTINGS - 1
   \<and> direction (processQueue edgeGame) = Right
   \<and> fst (nextHead DEFAULT_SETTINGS edgeGame) = 0
   \<and> updateGameState DEFAULT_SETTINGS quarters 2 edgeGame = Some (Inr (wrappedGame, 2))
   \<and> coords (hd (snake wrappedGame)) = (0, 10)"
proof -
  have pre: "0 < gridSize DEFAULT_SETTINGS" "\<not> gameOver edgeGame" "\<not> isPaused edgeGame"
    "snake edgeGame \<noteq> []" "inGrid (gridSize DEFAULT_SETTINGS) (coords (hd (snake edgeGame)))"
    by (simp_all add: DEFAULT_SETTINGS_def edgeGame_def freshGame_def inGrid_def coords_def
        segmentAt_def)
  have edge: "seg_x (hd (snake edgeGame)) = gridSize DEFAULT_SETTINGS - 1"
    "direction (processQueue edgeGame) = Right"
    by (simp_all add: DEFAULT_SETTINGS_def edgeGame_def freshGame_def processQueue_def
        segmentAt_def)
  from head_wraps_modulo [OF pre, of quarters 2] edge
  have "fst (nextHead DEFAULT_SETTINGS edgeGame) = 0" by blast
  moreover have "coords (hd (snake wrappedGame)) = (0, 10)"
    by (simp add: wrappedGame_def coords_def)
  ultimately show ?thesis using edge edgeGame_tick by (intro conjI)
qed

text \<open>
  C6. Offering a direction appends it to the queue exactly when the queue holds fewer than
  two entries and the direction is not the reverse of the last queued one (of the current
  direction when the queue is empty); any other offer returns the state untouched. The
  function is total: there is no error to raise.
\<close>

theorem offer_contract:
  "(inputQueue (offer d s) = inputQueue s @ [d]
      \<longleftrightarrow> length (inputQueue s) < 2
          \<and> d \<noteq> opposite (if inputQueue s = [] then direction s else last (inputQueue s)))
   \<and> offer d s =
       (if length (inputQueue s) < 2
           \<and> d \<noteq> opposite (if inputQueue s = [] then direction s else last (inputQueue s))
        then s\<lparr>inputQueue := inputQueue s @ [d]\<rparr> else s)"
proof -
  have valid: "isValidDirection d s
      \<longleftrightarrow> d \<noteq> opposite (if inputQueue s = [] then direction s else last (inputQueue s))"
    by (cases d; cases "direction s"; cases "last (inputQueue s)")
       (simp_all add: isValidDirection_def Let_def)
  show ?thesis
    by (simp add: offer_def valid MAX_QUEUED_INPUTS_def)
qed

theorem offer_contract_witness:
  "inputQueue (offer Up freshGame) = [Up]
   \<and> inputQueue (offer Left freshGame) = []
   \<and> inputQueue (offer Down (offer Up freshGame)) = [Up]
   \<and> inputQueue (offer Up (offer Left (offer Up freshGame))) = [Up, Left]"
  using offer_contract [of Up freshGame] offer_contract [of Left freshGame]
  by (simp add: offer_def isValidDirection_def MAX_QUEUED_INPUTS_def freshGame_def)

text \<open>
  C7 fails on the code: the interval is not floored at 50. With an initial interval of 60
  and a step of 7, two ticks that eat take it to 53 and then, since 53 is still above 50,
  to 46.
\<close>

theorem moveInterval_drops_below_50:
  "50 \<le> gameSpeed fastSettings \<and> 0 < speedIncrease fastSettings
   \<and> openGame fastSettings 0 40 bugDraws 0 = Some (bugGame0, 2)
   \<and> keyDownHandler ''Enter'' bugGame0 = bugGame1
   \<and> updateGameState fastSettings bugDraws 2 bugGame1 = Some (Inr (bugGame2, 4))
   \<and> updateGameState fastSettings bugDraws 4 bugGame2 = Some (Inr (bugGame3, 6))
   \<and> reachable fastSettings bugGame3
   \<and> moveInterval bugGame2 = 53 \<and> moveInterval bugGame3 = 46"
proof -
  have "reachable fastSettings bugGame0"
    by (rule reachable.opened [OF bugGame0_opened])
  then have "reachable fastSettings (keyDownHandler ''Enter'' bugGame0)"
    by (rule reachable.key)
  then have "reachable fastSettings bugGame1"
    by (simp only: bugGame1_key)
  then have "reachable fastSettings bugGame2"
    by (rule reachable.tick [OF _ bugGame2_tick])
  then have "reachable fastSettings bugGame3"
    by (rule reachable.tick [OF _ bugGame3_tick])
  then show ?thesis
    using bugGame0_opened bugGame1_key bugGame2_tick bugGame3_tick
    by (simp add: fastSettings_def bugGame2_def bugGame3_def)
qed

text \<open>
  C8. For a grid of at least one cell and a random source within \<open>[0, 1)\<close>: whenever
  \<^verbatim>\<open>generateFood\<close> returns, the cell it returns is on no snake segment and both of its
  coordinates lie in \<open>[0, gridSize)\<close>.
\<close>

theorem generateFood_result_free_in_grid:
  assumes "0 < g" and "unitDraws rnd" and "generateFood g snk rnd n = Some (c, n')"
  shows "\<not> occupied snk c \<and> 0 \<le> fst c \<and> fst c < g \<and> 0 \<le> snd c \<and> snd c < g"
proof -
  from generateFood_sound [OF assms(3)] obtain k where
    free: "\<not> occupied snk c" and c: "c = draw g rnd (n + 2 * k)" by auto
  from draw_inGrid [OF assms(1,2), of "n + 2 * k"] c free show ?thesis
    by (simp add: inGrid_def)
qed

theorem generateFood_result_free_in_grid_witness:
  "generateFood 20 [segmentAt 10 10] quarters 0 = Some ((5, 5), 2)
   \<and> \<not> occupied [segmentAt 10 10] (5, 5) \<and> (0::int) \<le> 5 \<and> (5::int) < 20"
proof -
  have ret: "generateFood 20 [segmentAt 10 10] quarters 0 = Some ((5, 5), 2)"
    by (simp add: generateFood_free occupied_def draw_def quarters_def segmentAt_def)
  from generateFood_result_free_in_grid [OF _ unitDraws_quarters ret] ret
  show ?thesis by simp
qed

text \<open>
  C9. The random draws enter as a source in which every cell of the grid comes up in some
  round from the current one on, as it does with probability one when the cells are drawn
  uniformly. Then, whenever a cell of the grid is free of the snake, \<^verbatim>\<open>generateFood\<close>
  returns after finitely many draws, and the cell it returns is free.
\<close>

theorem generateFood_returns_with_free_cell:
  assumes "inGrid g c" and "\<not> occupied snk c"
    and "\<forall>c. inGrid g c \<longrightarrow> (\<exists>k. draw g rnd (n + 2 * k) = c)"
  shows "\<exists>f k. generateFood g snk rnd n = Some (f, n + 2 * k + 2) \<and> \<not> occupied snk f"
proof -
  from assms(1,3) obtain k where "draw g rnd (n + 2 * k) = c" by blast
  with assms(2) have "\<exists>k. \<not> occupied snk (draw g rnd (n + 2 * k))" by auto
  then obtain r where r: "generateFood g snk rnd n = Some r"
    using generateFood_returns_iff [of g snk rnd n] by blast
  from generateFood_sound [OF r] obtain j where
    "\<not> occupied snk (fst r)" "snd r = n + 2 * j + 2" by blast
  with r have "generateFood g snk rnd n = Some (fst r, n + 2 * j + 2) \<and> \<not> occupied snk (fst r)"
    by (cases r) simp
  then show ?thesis by blast
qed

theorem generateFood_returns_with_free_cell_witness:
  "inGrid 20 (1, 0) \<and> \<not> occupied [segmentAt 0 0] (1, 0) \<and> unitDraws (sweep 20)
   \<and> occupied [segmentAt 0 0] (draw 20 (sweep 20) 0)
   \<and> generateFood 20 [segmentAt 0 0] (sweep 20) 0 = Some ((1, 0), 4)"
proof -
  have cell: "inGrid 20 (1, 0)" "\<not> occupied [segmentAt 0 0] (1, 0)"
    by (simp_all add: inGrid_def occupied_def segmentAt_def)
  have fair: "\<forall>c. inGrid 20 c \<longrightarrow> (\<exists>k. draw 20 (sweep 20) (0 + 2 * k) = c)"
    using sweep_fair [of 20] by simp
  have d0: "draw 20 (sweep 20) 0 = (0, 0)" and d2: "draw 20 (sweep 20) 2 = (1, 0)"
    by (simp_all add: draw_def sweep_def)
  from d0 have hit: "occupied [segmentAt 0 0] (draw 20 (sweep 20) 0)"
    by (simp add: occupied_def segmentAt_def)
  from d2 have free: "\<not> occupied [segmentAt 0 0] (draw 20 (sweep 20) 2)"
    by (simp add: occupied_def segmentAt_def)
  have "generateFood 20 [segmentAt 0 0] (sweep 20) 0
      = generateFood 20 [segmentAt 0 0] (sweep 20) (0 + 2)"
    by (rule generateFood_retry [OF hit])
  also have "\<dots> = generateFood 20 [segmentAt 0 0] (sweep 20) 2"
    by (simp only: add_0)
  also have "\<dots> = Some (draw 20 (sweep 20) 2, 2 + 2)"
    by (rule generateFood_free [OF free])
  finally have run: "generateFood 20 [segmentAt 0 0] (sweep 20) 0 = Some ((1, 0), 4)"
    by (simp add: d2)
  from generateFood_returns_with_free_cell [OF cell fair]
  obtain f k where "generateFood 20 [segmentAt 0 0] (sweep 20) 0 = Some (f, 0 + 2 * k + 2)"
    "\<not> occupied [segmentAt 0 0] f" by blast
  with run cell hit unitDraws_sweep [of 20] show ?thesis by simp
qed

text \<open>
  C10. In every reachable state the score is ten times the number of segments after the
  first.
\<close>

theorem score_counts_growth:
  "reachable cfg s \<Longrightarrow> score s = 10 * (int (length (snake s)) - 1)"
  by (rule reachable_score)

theorem score_counts_growth_witness:
  "reachable DEFAULT_SETTINGS fedGame \<and> score fedGame = 10 \<and> length (snake fedGame) = 2"
  using score_counts_growth [OF fedGame_reachable] fedGame_reachable
  by (simp add: fedGame_def)

end
